theory Spec2Isabelle
  imports Main "HOL-Library.Word"
begin

unbundle bit_operations_syntax

text \<open>
  The token lifecycle of the repository's two services, embedded function by function:
  the in-memory service of package \<^verbatim>\<open>main\<close> (token generation, \<^verbatim>\<open>session.go\<close>, the handlers
  of \<^verbatim>\<open>main.go\<close> over a map from usernames to logins) and the persistent \<^verbatim>\<open>auth-server\<close>
  (\<^verbatim>\<open>internal/auth/tokens.go\<close>, the store of \<^verbatim>\<open>internal/database/postgres.go\<close> with its
  schema, the handlers of \<^verbatim>\<open>internal/api/handlers.go\<close>). The clock, the randomness source
  and the failures of database statements are explicit arguments.
\<close>

section \<open>Go library primitives used by the token code\<close>

subsection \<open>URL-safe base64 (\<^verbatim>\<open>base64.URLEncoding\<close>)\<close>

text \<open>
  Both token generators end in \<^verbatim>\<open>base64.URLEncoding.EncodeToString(b)\<close>. The encoder is
  Go's \<^verbatim>\<open>encoding/base64\<close> with the URL alphabet of RFC 4648 and \<^verbatim>\<open>=\<close> padding: three
  source bytes are packed into a 24-bit value and cut into four 6-bit indices into the
  alphabet; a remainder of one or two bytes is encoded into two or three characters and
  padded to four.
\<close>

type_synonym byte = "8 word"
type_synonym uint = "64 word"

definition encodeURL :: string where
  "encodeURL = ''ABCDEFGHIJKLMNOPQRSTUVWXYZabcdefghijklmnopqrstuvwxyz0123456789-_''"

definition StdPadding :: char where
  "StdPadding = CHR ''=''"

definition enc_encode :: "uint \<Rightarrow> char" where
  "enc_encode i = encodeURL ! unat i"

definition pack3 :: "byte \<Rightarrow> byte \<Rightarrow> byte \<Rightarrow> uint" where
  "pack3 b0 b1 b2 = push_bit 16 (ucast b0) OR push_bit 8 (ucast b1) OR ucast b2"

definition pack2 :: "byte \<Rightarrow> byte \<Rightarrow> uint" where
  "pack2 b0 b1 = push_bit 16 (ucast b0) OR push_bit 8 (ucast b1)"

definition pack1 :: "byte \<Rightarrow> uint" where
  "pack1 b0 = push_bit 16 (ucast b0)"

fun EncodeToString :: "byte list \<Rightarrow> string" where
  "EncodeToString (b0 # b1 # b2 # src) =
     (let val = pack3 b0 b1 b2 in
        enc_encode (drop_bit 18 val AND 0x3F) # enc_encode (drop_bit 12 val AND 0x3F) #
        enc_encode (drop_bit 6 val AND 0x3F) # enc_encode (val AND 0x3F) #
        EncodeToString src)"
| "EncodeToString [b0, b1] =
     (let val = pack2 b0 b1 in
        [enc_encode (drop_bit 18 val AND 0x3F), enc_encode (drop_bit 12 val AND 0x3F),
         enc_encode (drop_bit 6 val AND 0x3F), StdPadding])"
| "EncodeToString [b0] =
     (let val = pack1 b0 in
        [enc_encode (drop_bit 18 val AND 0x3F), enc_encode (drop_bit 12 val AND 0x3F),
         StdPadding, StdPadding])"
| "EncodeToString [] = []"

text \<open>
  The matching decoder, \<^verbatim>\<open>base64.URLEncoding.DecodeString\<close>: carriage returns and line
  feeds are skipped, every other character must belong to the alphabet, padding may
  only close the last group of four, and an unpadded tail is rejected.
\<close>

fun index_of :: "char \<Rightarrow> string \<Rightarrow> nat option" where
  "index_of c [] = None"
| "index_of c (x # xs) = (if x = c then Some 0 else map_option Suc (index_of c xs))"

definition decodeMap :: "char \<Rightarrow> uint option" where
  "decodeMap c = map_option of_nat (index_of c encodeURL)"

definition pack4 :: "uint \<Rightarrow> uint \<Rightarrow> uint \<Rightarrow> uint \<Rightarrow> uint" where
  "pack4 d0 d1 d2 d3 = push_bit 18 d0 OR push_bit 12 d1 OR push_bit 6 d2 OR d3"

fun decode_quanta :: "string \<Rightarrow> byte list option" where
  "decode_quanta [] = Some []"
| "decode_quanta (c0 # c1 # c2 # c3 # src) =
     (case decodeMap c0 of None \<Rightarrow> None | Some d0 \<Rightarrow>
      case decodeMap c1 of None \<Rightarrow> None | Some d1 \<Rightarrow>
      if c2 = StdPadding then
        (if c3 = StdPadding \<and> src = []
         then Some [ucast (drop_bit 16 (pack4 d0 d1 0 0))] else None)
      else
      case decodeMap c2 of None \<Rightarrow> None | Some d2 \<Rightarrow>
      if c3 = StdPadding then
        (if src = []
         then Some [ucast (drop_bit 16 (pack4 d0 d1 d2 0)),
                    ucast (drop_bit 8 (pack4 d0 d1 d2 0))]
         else None)
      else
      case decodeMap c3 of None \<Rightarrow> None | Some d3 \<Rightarrow>
      case decode_quanta src of None \<Rightarrow> None | Some dst \<Rightarrow>
        Some (ucast (drop_bit 16 (pack4 d0 d1 d2 d3)) #
              ucast (drop_bit 8 (pack4 d0 d1 d2 d3)) #
              ucast (pack4 d0 d1 d2 d3) # dst))"
| "decode_quanta _ = None"

definition DecodeString :: "string \<Rightarrow> byte list option" where
  "DecodeString s = decode_quanta (filter (\<lambda>c. c \<noteq> CHR 0x0D \<and> c \<noteq> CHR 0x0A) s)"

subsection \<open>The randomness source (\<^verbatim>\<open>crypto/rand\<close>)\<close>

text \<open>
  \<^verbatim>\<open>rand.Read(b)\<close> either fills all of \<^verbatim>\<open>b\<close> or returns an error. The source is
  modelled as the pool of bytes it can still deliver: a read of \<open>n\<close> bytes takes them
  from the front, and fails, leaving the pool alone, when fewer than \<open>n\<close> are left. A
  read of zero bytes therefore never fails, as in Go. Buffer lengths are \<open>nat\<close>:
  \<^verbatim>\<open>make([]byte, length)\<close> panics on a negative length, and every caller passes 32 or 64.
\<close>

datatype rand_error = EntropyUnavailable

type_synonym entropy = "byte list"

definition rand_Read :: "entropy \<Rightarrow> nat \<Rightarrow> (rand_error + byte list) \<times> entropy" where
  "rand_Read pool n =
     (if n \<le> length pool then (Inr (take n pool), drop n pool)
      else (Inl EntropyUnavailable, pool))"

subsection \<open>Constant-time comparison and time\<close>

text \<open>
  \<^verbatim>\<open>subtle.ConstantTimeCompare\<close> returns 1 when the two byte slices have equal contents
  and 0 otherwise; only this result is modelled, not the running time.
  A \<^verbatim>\<open>time.Time\<close> is an instant counted in nanoseconds from Go's zero time, a
  \<^verbatim>\<open>time.Duration\<close> a number of nanoseconds; \<^verbatim>\<open>time.Now()\<close> is a parameter \<open>now\<close> of
  every function that reads the clock.
\<close>

definition ConstantTimeCompare :: "string \<Rightarrow> string \<Rightarrow> int" where
  "ConstantTimeCompare x y = (if x = y then 1 else 0)"

type_synonym time = int
type_synonym duration = int

definition zero_Time :: time where
  "zero_Time = 0"

definition Minute :: duration where
  "Minute = 60 * 1000000000"

definition Time_Add :: "time \<Rightarrow> duration \<Rightarrow> time" where
  "Time_Add t d = t + d"

definition Time_After :: "time \<Rightarrow> time \<Rightarrow> bool" where
  "Time_After t u \<longleftrightarrow> u < t"

section \<open>Requests and responses\<close>

text \<open>
  A handler sees the request method, the two token headers (\<^verbatim>\<open>Header.Get\<close> gives the
  empty string for an absent header) and the JSON body. The body is \<open>None\<close> when
  decoding fails; a field missing from the JSON object decodes to the empty string.
  A response is what the handler writes: \<^verbatim>\<open>sendJSONError(w, message, statusCode)\<close>, a
  status with a \<^verbatim>\<open>{"message": ...}\<close> object, or status 200 with an \<^verbatim>\<open>AuthResponse\<close>.
\<close>

record Payload =
  json_username :: string
  json_password :: string
  json_refreshToken :: string

record Request =
  Method :: string
  X_ACCESS_TOKEN :: string
  X_CSRF_TOKEN :: string
  Body :: "Payload option"

record AuthTokens =
  AccessToken :: string
  RefreshToken :: string
  CSRFToken :: string
  ExpiresAt :: time

datatype Response =
    JSONError string nat
  | JSONMessage nat string
  | AuthResponse string AuthTokens

definition MethodPost :: string where
  "MethodPost = ''POST''"

section \<open>The in-memory service (package main)\<close>

record Login =
  HashedPassword :: string
  Tokens :: AuthTokens

type_synonym database = "string \<rightharpoonup> Login"

definition empty_AuthTokens :: AuthTokens where
  "empty_AuthTokens =
     \<lparr>AccessToken = '''', RefreshToken = '''', CSRFToken = '''', ExpiresAt = zero_Time\<rparr>"

definition generateToken :: "entropy \<Rightarrow> nat \<Rightarrow> string \<times> entropy" where
  "generateToken pool len =
     (case rand_Read pool len of
        (Inl err, pool') \<Rightarrow> ('''', pool')
      | (Inr b, pool') \<Rightarrow> (EncodeToString b, pool'))"

definition generateAuthTokens :: "entropy \<Rightarrow> time \<Rightarrow> AuthTokens \<times> entropy" where
  "generateAuthTokens pool now =
     (let (access, pool1) = generateToken pool 32;
          (refresh, pool2) = generateToken pool1 64;
          (csrf, pool3) = generateToken pool2 32
      in (\<lparr>AccessToken = access, RefreshToken = refresh, CSRFToken = csrf,
           ExpiresAt = Time_Add now (15 * Minute)\<rparr>, pool3))"

datatype refresh_error = UserNotFound | InvalidRefreshToken

definition refreshAuthTokens ::
  "database \<Rightarrow> entropy \<Rightarrow> time \<Rightarrow> string \<Rightarrow> string \<Rightarrow> (refresh_error + AuthTokens) \<times> entropy" where
  "refreshAuthTokens db pool now refreshTok username =
     (case db username of
        None \<Rightarrow> (Inl UserNotFound, pool)
      | Some userData \<Rightarrow>
          if ConstantTimeCompare refreshTok (RefreshToken (Tokens userData)) \<noteq> 1
          then (Inl InvalidRefreshToken, pool)
          else
            let (newTokens, pool') = generateAuthTokens pool now
            in (Inr (newTokens\<lparr>RefreshToken := RefreshToken (Tokens userData)\<rparr>), pool'))"

text \<open>
  \<^verbatim>\<open>Authorize\<close> ranges over the map. Go visits the entries of a map in an unspecified
  order, so the order is a parameter: the list of keys as the loop meets them. The loop
  returns the expiry error from inside, leaves with \<^verbatim>\<open>foundValidUser\<close> set when both
  tokens match, and otherwise moves on to the next entry.
\<close>

datatype session_error = ErrAuth | AccessTokenExpired

fun Authorize_loop :: "Login list \<Rightarrow> time \<Rightarrow> string \<Rightarrow> string \<Rightarrow> session_error + bool" where
  "Authorize_loop [] now accessTok csrfTok = Inr False"
| "Authorize_loop (userData # rest) now accessTok csrfTok =
     (if AccessToken (Tokens userData) = accessTok then
        (if Time_After now (ExpiresAt (Tokens userData)) then Inl AccessTokenExpired
         else if CSRFToken (Tokens userData) = csrfTok then Inr True
         else Authorize_loop rest now accessTok csrfTok)
      else Authorize_loop rest now accessTok csrfTok)"

definition Authorize :: "database \<Rightarrow> string list \<Rightarrow> time \<Rightarrow> Request \<Rightarrow> session_error option" where
  "Authorize db order now r =
     (if X_ACCESS_TOKEN r = '''' then Some ErrAuth
      else if X_CSRF_TOKEN r = '''' then Some ErrAuth
      else
        case Authorize_loop (List.map_filter db order) now (X_ACCESS_TOKEN r) (X_CSRF_TOKEN r) of
          Inl err \<Rightarrow> Some err
        | Inr foundValidUser \<Rightarrow> if \<not> foundValidUser then Some ErrAuth else None)"

text \<open>
  The handlers of \<^verbatim>\<open>main.go\<close>. Each returns its response with the updated map and
  randomness source. Password checking is bcrypt and is passed in as \<open>check\<close>.
\<close>

definition login ::
  "(string \<Rightarrow> string \<Rightarrow> bool) \<Rightarrow> database \<Rightarrow> entropy \<Rightarrow> time \<Rightarrow> Request
     \<Rightarrow> Response \<times> database \<times> entropy" where
  "login check db pool now r =
     (if Method r \<noteq> MethodPost then (JSONError ''Invalid method'' 405, db, pool)
      else case Body r of
        None \<Rightarrow> (JSONError ''Invalid request body'' 400, db, pool)
      | Some req \<Rightarrow>
          (case db (json_username req) of
             None \<Rightarrow> (JSONError ''Invalid username or password'' 401, db, pool)
           | Some user \<Rightarrow>
               if \<not> check (json_password req) (HashedPassword user)
               then (JSONError ''Invalid username or password'' 401, db, pool)
               else
                 let (tokens, pool') = generateAuthTokens pool now
                 in (AuthResponse ''User logged in successfully'' tokens,
                     db(json_username req \<mapsto> user\<lparr>Tokens := tokens\<rparr>), pool')))"

definition refreshToken ::
  "database \<Rightarrow> entropy \<Rightarrow> time \<Rightarrow> Request \<Rightarrow> Response \<times> database \<times> entropy" where
  "refreshToken db pool now r =
     (if Method r \<noteq> MethodPost then (JSONError ''Invalid method'' 405, db, pool)
      else case Body r of
        None \<Rightarrow> (JSONError ''Invalid request body'' 400, db, pool)
      | Some req \<Rightarrow>
          (case refreshAuthTokens db pool now (json_refreshToken req) (json_username req) of
             (Inl err, pool') \<Rightarrow> (JSONError ''Invalid refresh token'' 401, db, pool')
           | (Inr newTokens, pool') \<Rightarrow>
               (case db (json_username req) of
                  None \<Rightarrow>
                    (AuthResponse ''Tokens refreshed successfully'' newTokens,
                     db(json_username req \<mapsto> \<lparr>HashedPassword = '''', Tokens = newTokens\<rparr>), pool')
                | Some user \<Rightarrow>
                    (AuthResponse ''Tokens refreshed successfully'' newTokens,
                     db(json_username req \<mapsto> user\<lparr>Tokens := newTokens\<rparr>), pool'))))"

definition logout ::
  "database \<Rightarrow> string list \<Rightarrow> time \<Rightarrow> Request \<Rightarrow> Response \<times> database" where
  "logout db order now r =
     (if Method r \<noteq> MethodPost then (JSONError ''Invalid method'' 405, db)
      else case Authorize db order now r of
        Some err \<Rightarrow> (JSONError ''Unauthorized'' 401, db)
      | None \<Rightarrow>
          (case Body r of
             None \<Rightarrow> (JSONError ''Invalid request body'' 400, db)
           | Some req \<Rightarrow>
               (case db (json_username req) of
                  Some user \<Rightarrow>
                    (JSONMessage 200 ''User logged out successfully'',
                     db(json_username req \<mapsto> user\<lparr>Tokens := empty_AuthTokens\<rparr>))
                | None \<Rightarrow> (JSONError ''User not found'' 404, db))))"

definition protected :: "database \<Rightarrow> time \<Rightarrow> Request \<Rightarrow> Response" where
  "protected db now r =
     (if Method r \<noteq> MethodPost then JSONError ''Invalid method'' 405
      else case Body r of
        None \<Rightarrow> JSONError ''Invalid request body'' 400
      | Some req \<Rightarrow>
          (case db (json_username req) of
             None \<Rightarrow> JSONError ''User not found'' 404
           | Some userData \<Rightarrow>
               if X_ACCESS_TOKEN r = '''' \<or> X_CSRF_TOKEN r = ''''
               then JSONError ''Missing authentication tokens'' 401
               else if AccessToken (Tokens userData) \<noteq> X_ACCESS_TOKEN r \<or>
                       CSRFToken (Tokens userData) \<noteq> X_CSRF_TOKEN r
               then JSONError ''Invalid authentication tokens'' 401
               else if Time_After now (ExpiresAt (Tokens userData))
               then JSONError ''Access token expired'' 401
               else JSONMessage 200
                      (''Protected resource accessed by user: '' @ json_username req)))"

section \<open>The persistent service (auth-server)\<close>

subsection \<open>Token generation (internal/auth/tokens.go)\<close>

record TokenConfig =
  AccessTokenDuration :: duration
  RefreshTokenDuration :: duration

definition GenerateToken :: "entropy \<Rightarrow> nat \<Rightarrow> (rand_error + string) \<times> entropy" where
  "GenerateToken pool len =
     (case rand_Read pool len of
        (Inl err, pool') \<Rightarrow> (Inl err, pool')
      | (Inr b, pool') \<Rightarrow> (Inr (EncodeToString b), pool'))"

definition GenerateAuthTokens ::
  "TokenConfig \<Rightarrow> entropy \<Rightarrow> time \<Rightarrow> (rand_error + AuthTokens) \<times> entropy" where
  "GenerateAuthTokens config pool now =
     (case GenerateToken pool 32 of
        (Inl err, pool1) \<Rightarrow> (Inl err, pool1)
      | (Inr accessTok, pool1) \<Rightarrow>
     (case GenerateToken pool1 64 of
        (Inl err, pool2) \<Rightarrow> (Inl err, pool2)
      | (Inr refreshTok, pool2) \<Rightarrow>
     (case GenerateToken pool2 32 of
        (Inl err, pool3) \<Rightarrow> (Inl err, pool3)
      | (Inr csrfTok, pool3) \<Rightarrow>
          (Inr \<lparr>AccessToken = accessTok, RefreshToken = refreshTok, CSRFToken = csrfTok,
                ExpiresAt = Time_Add now (AccessTokenDuration config)\<rparr>, pool3))))"

definition ValidateRefreshToken :: "string \<Rightarrow> string \<Rightarrow> bool" where
  "ValidateRefreshToken providedToken storedToken \<longleftrightarrow>
     ConstantTimeCompare providedToken storedToken = 1"

subsection \<open>The store (internal/database/postgres.go and the schema)\<close>

text \<open>
  The two tables of \<^verbatim>\<open>001_initial_schema.sql\<close>, with the columns the handlers read and
  write (\<^verbatim>\<open>id\<close> of \<^verbatim>\<open>auth_tokens\<close> and the \<^verbatim>\<open>created_at\<close>, \<^verbatim>\<open>updated_at\<close> defaults are
  assigned by the server and read by no handler). A statement can fail in the driver
  for reasons outside the program; \<open>faults\<close> lists, for the statements still to come,
  whether each one does (an empty list: none fails).
\<close>

record User =
  u_id :: int
  u_username :: string
  u_hashed_password :: string

record AuthToken =
  t_user_id :: int
  t_access_token :: string
  t_refresh_token :: string
  t_csrf_token :: string
  t_expires_at :: time

record Database =
  users :: "User list"
  auth_tokens :: "AuthToken list"
  faults :: "bool list"

datatype db_error = FailedToGetUser | FailedToDelete | FailedToSave | FailedToQuery

definition exec_stmt :: "Database \<Rightarrow> bool \<times> Database" where
  "exec_stmt d = (case faults d of [] \<Rightarrow> (False, d) | f # fs \<Rightarrow> (f, d\<lparr>faults := fs\<rparr>))"

definition GetUserByUsername :: "Database \<Rightarrow> string \<Rightarrow> (db_error + User option) \<times> Database" where
  "GetUserByUsername d username =
     (case exec_stmt d of
        (True, d') \<Rightarrow> (Inl FailedToGetUser, d')
      | (False, d') \<Rightarrow> (Inr (find (\<lambda>u. u_username u = username) (users d')), d'))"

text \<open>
  The \<^verbatim>\<open>INSERT\<close> is refused by the schema when the user row does not exist (foreign
  key), when the access or refresh token is already stored (\<^verbatim>\<open>UNIQUE\<close>), or when a
  token does not fit \<^verbatim>\<open>VARCHAR(255)\<close>.
\<close>

definition insert_refused :: "Database \<Rightarrow> AuthToken \<Rightarrow> bool" where
  "insert_refused d row \<longleftrightarrow>
     t_user_id row \<notin> set (map u_id (users d)) \<or>
     t_access_token row \<in> set (map t_access_token (auth_tokens d)) \<or>
     t_refresh_token row \<in> set (map t_refresh_token (auth_tokens d)) \<or>
     255 < length (t_access_token row) \<or> 255 < length (t_refresh_token row) \<or>
     255 < length (t_csrf_token row)"

definition delete_tokens_of :: "int \<Rightarrow> Database \<Rightarrow> Database" where
  "delete_tokens_of userID d =
     d\<lparr>auth_tokens := filter (\<lambda>t. t_user_id t \<noteq> userID) (auth_tokens d)\<rparr>"

definition SaveAuthTokens :: "Database \<Rightarrow> int \<Rightarrow> AuthToken \<Rightarrow> db_error option \<times> Database" where
  "SaveAuthTokens d userID tokens =
     (case exec_stmt d of
        (True, d1) \<Rightarrow> (Some FailedToDelete, d1)
      | (False, d1) \<Rightarrow>
          (case exec_stmt (delete_tokens_of userID d1) of
             (True, d2) \<Rightarrow> (Some FailedToSave, d2)
           | (False, d2) \<Rightarrow>
               let row = tokens\<lparr>t_user_id := userID\<rparr> in
               if insert_refused d2 row then (Some FailedToSave, d2)
               else (None, d2\<lparr>auth_tokens := auth_tokens d2 @ [row]\<rparr>)))"

definition joined_rows :: "Database \<Rightarrow> (AuthToken \<times> User) list" where
  "joined_rows d =
     filter (\<lambda>(t, u). t_user_id t = u_id u) (List.product (auth_tokens d) (users d))"

definition GetAuthTokensByAccessToken ::
  "Database \<Rightarrow> string \<Rightarrow> (db_error + (AuthToken \<times> User) option) \<times> Database" where
  "GetAuthTokensByAccessToken d accessTok =
     (case exec_stmt d of
        (True, d') \<Rightarrow> (Inl FailedToQuery, d')
      | (False, d') \<Rightarrow>
          (Inr (find (\<lambda>(t, u). t_access_token t = accessTok) (joined_rows d')), d'))"

text \<open>
  \<^verbatim>\<open>postgres.go\<close> comes in two versions. In the first the lookup by refresh token is
  a stub that returns \<^verbatim>\<open>nil, nil, nil\<close> without touching the database; the second, the
  one that traces its calls, runs the query.
\<close>

definition GetAuthTokensByRefreshToken ::
  "Database \<Rightarrow> string \<Rightarrow> (db_error + (AuthToken \<times> User) option) \<times> Database" where
  "GetAuthTokensByRefreshToken d refreshTok = (Inr None, d)"

definition GetAuthTokensByRefreshToken_traced ::
  "Database \<Rightarrow> string \<Rightarrow> (db_error + (AuthToken \<times> User) option) \<times> Database" where
  "GetAuthTokensByRefreshToken_traced d refreshTok =
     (case exec_stmt d of
        (True, d') \<Rightarrow> (Inl FailedToQuery, d')
      | (False, d') \<Rightarrow>
          (Inr (find (\<lambda>(t, u). t_refresh_token t = refreshTok) (joined_rows d')), d'))"


subsection \<open>The handlers (internal/api/handlers.go)\<close>

definition dbToken_of :: "int \<Rightarrow> AuthTokens \<Rightarrow> AuthToken" where
  "dbToken_of userID tokens =
     \<lparr>t_user_id = userID, t_access_token = AccessToken tokens,
      t_refresh_token = RefreshToken tokens, t_csrf_token = CSRFToken tokens,
      t_expires_at = ExpiresAt tokens\<rparr>"


definition Handler_RefreshToken_with ::
  "(Database \<Rightarrow> string \<Rightarrow> (db_error + (AuthToken \<times> User) option) \<times> Database)
     \<Rightarrow> TokenConfig \<Rightarrow> Database \<Rightarrow> entropy \<Rightarrow> time \<Rightarrow> Request
     \<Rightarrow> Response \<times> Database \<times> entropy" where
  "Handler_RefreshToken_with lookup conf d pool now r =
     (if Method r \<noteq> MethodPost then (JSONError ''Invalid method'' 405, d, pool)
      else case Body r of
        None \<Rightarrow> (JSONError ''Invalid request body'' 400, d, pool)
      | Some req \<Rightarrow>
     (case GetUserByUsername d (json_username req) of
        (Inl err, d1) \<Rightarrow> (JSONError ''Internal server error'' 500, d1, pool)
      | (Inr None, d1) \<Rightarrow> (JSONError ''User not found'' 404, d1, pool)
      | (Inr (Some user), d1) \<Rightarrow>
     (case lookup d1 (json_refreshToken req) of
        (Inl err, d2) \<Rightarrow> (JSONError ''Internal server error'' 500, d2, pool)
      | (Inr None, d2) \<Rightarrow> (JSONError ''Invalid refresh token'' 401, d2, pool)
      | (Inr (Some (token, _)), d2) \<Rightarrow>
          if t_user_id token \<noteq> u_id user \<or>
             \<not> ValidateRefreshToken (json_refreshToken req) (t_refresh_token token)
          then (JSONError ''Invalid refresh token'' 401, d2, pool)
          else
     (case GenerateAuthTokens conf pool now of
        (Inl err, pool') \<Rightarrow> (JSONError ''Internal server error'' 500, d2, pool')
      | (Inr generated, pool') \<Rightarrow>
          let newTokens = generated\<lparr>RefreshToken := t_refresh_token token\<rparr> in
     (case SaveAuthTokens d2 (u_id user) (dbToken_of (u_id user) newTokens) of
        (Some err, d3) \<Rightarrow> (JSONError ''Internal server error'' 500, d3, pool')
      | (None, d3) \<Rightarrow>
          (AuthResponse ''Tokens refreshed successfully'' newTokens, d3, pool'))))))"

definition Handler_RefreshToken ::
  "TokenConfig \<Rightarrow> Database \<Rightarrow> entropy \<Rightarrow> time \<Rightarrow> Request \<Rightarrow> Response \<times> Database \<times> entropy" where
  "Handler_RefreshToken = Handler_RefreshToken_with GetAuthTokensByRefreshToken"

definition Handler_RefreshToken_traced ::
  "TokenConfig \<Rightarrow> Database \<Rightarrow> entropy \<Rightarrow> time \<Rightarrow> Request \<Rightarrow> Response \<times> Database \<times> entropy" where
  "Handler_RefreshToken_traced = Handler_RefreshToken_with GetAuthTokensByRefreshToken_traced"


definition Handler_Protected :: "Database \<Rightarrow> time \<Rightarrow> Request \<Rightarrow> Response \<times> Database" where
  "Handler_Protected d now r =
     (if Method r \<noteq> MethodPost then (JSONError ''Invalid method'' 405, d)
      else if X_ACCESS_TOKEN r = '''' then (JSONError ''Missing access token'' 401, d)
      else if X_CSRF_TOKEN r = '''' then (JSONError ''Missing CSRF token'' 401, d)
      else
     (case GetAuthTokensByAccessToken d (X_ACCESS_TOKEN r) of
        (Inl err, d1) \<Rightarrow> (JSONError ''Internal server error'' 500, d1)
      | (Inr None, d1) \<Rightarrow> (JSONError ''Invalid access token'' 401, d1)
      | (Inr (Some (token, user)), d1) \<Rightarrow>
          if t_csrf_token token \<noteq> X_CSRF_TOKEN r
          then (JSONError ''Invalid CSRF token'' 401, d1)
          else if Time_After now (t_expires_at token)
          then (JSONError ''Access token expired'' 401, d1)
          else (JSONMessage 200
                  (''Protected resource accessed by user: '' @ u_username user), d1)))"

section \<open>Properties of the store\<close>

text \<open>
  The rows an owner has in \<^verbatim>\<open>auth_tokens\<close>, and the invariant of the table: no two rows
  share an owner, an access token or a refresh token.
\<close>

definition bundles_of :: "Database \<Rightarrow> int \<Rightarrow> AuthToken list" where
  "bundles_of d userID = filter (\<lambda>t. t_user_id t = userID) (auth_tokens d)"

definition bundles_of_others :: "Database \<Rightarrow> int \<Rightarrow> AuthToken list" where
  "bundles_of_others d userID = filter (\<lambda>t. t_user_id t \<noteq> userID) (auth_tokens d)"

definition store_ok :: "AuthToken list \<Rightarrow> bool" where
  "store_ok ts \<longleftrightarrow>
     distinct (map t_user_id ts) \<and> distinct (map t_access_token ts) \<and>
     distinct (map t_refresh_token ts)"

section \<open>Sample states\<close>

text \<open>
  Two registered users, each holding a bundle that expires at instant 100, in the
  in-memory map and in the tables; the theorems below are exercised on them.
\<close>

definition alice_tokens :: AuthTokens where
  "alice_tokens =
     \<lparr>AccessToken = ''tokA'', RefreshToken = ''refA'', CSRFToken = ''csrfA'', ExpiresAt = 100\<rparr>"

definition bob_tokens :: AuthTokens where
  "bob_tokens =
     \<lparr>AccessToken = ''tokB'', RefreshToken = ''refB'', CSRFToken = ''csrfB'', ExpiresAt = 100\<rparr>"

definition new_tokens :: AuthTokens where
  "new_tokens =
     \<lparr>AccessToken = ''tokN'', RefreshToken = ''refN'', CSRFToken = ''csrfN'', ExpiresAt = 200\<rparr>"

definition sample_map :: database where
  "sample_map =
     [''alice123'' \<mapsto> \<lparr>HashedPassword = ''hashA'', Tokens = alice_tokens\<rparr>,
      ''bob45678'' \<mapsto> \<lparr>HashedPassword = ''hashB'', Tokens = bob_tokens\<rparr>]"

definition alice :: User where
  "alice = \<lparr>u_id = 1, u_username = ''alice123'', u_hashed_password = ''hashA''\<rparr>"

definition bob :: User where
  "bob = \<lparr>u_id = 2, u_username = ''bob45678'', u_hashed_password = ''hashB''\<rparr>"

definition sample_store :: Database where
  "sample_store =
     \<lparr>users = [alice, bob],
      auth_tokens = [dbToken_of 1 alice_tokens, dbToken_of 2 bob_tokens],
      faults = []\<rparr>"

definition request :: "string \<Rightarrow> string \<Rightarrow> Payload option \<Rightarrow> Request" where
  "request accessTok csrfTok body =
     \<lparr>Method = MethodPost, X_ACCESS_TOKEN = accessTok, X_CSRF_TOKEN = csrfTok, Body = body\<rparr>"

definition body_of :: "string \<Rightarrow> string \<Rightarrow> string \<Rightarrow> Payload option" where
  "body_of username password refreshTok =
     Some \<lparr>json_username = username, json_password = password,
           json_refreshToken = refreshTok\<rparr>"

definition sample_conf :: TokenConfig where
  "sample_conf = \<lparr>AccessTokenDuration = 15 * Minute, RefreshTokenDuration = 10080 * Minute\<rparr>"

definition zero_pool :: entropy where
  "zero_pool = replicate 128 0"

definition zero_bundle :: "time \<Rightarrow> AuthTokens" where
  "zero_bundle t =
     \<lparr>AccessToken = replicate 43 (CHR ''A'') @ ''='',
      RefreshToken = replicate 86 (CHR ''A'') @ ''=='',
      CSRFToken = replicate 43 (CHR ''A'') @ ''='', ExpiresAt = t\<rparr>"

definition always :: "string \<Rightarrow> string \<Rightarrow> bool" where
  "always password hash = True"

section \<open>Base64: decoding inverts encoding\<close>

lemma index_of_nth: "distinct xs \<Longrightarrow> i < length xs \<Longrightarrow> index_of (xs ! i) xs = Some i"
proof (induction xs arbitrary: i)
  case Nil
  then show ?case by simp
next
  case (Cons x xs)
  then show ?case by (cases i) auto
qed

lemma distinct_encodeURL: "distinct encodeURL"
  unfolding encodeURL_def by simp

lemma length_encodeURL: "length encodeURL = 64"
  unfolding encodeURL_def by simp

text \<open>A masked index stays inside the 64-character alphabet.\<close>

lemma and63_lt: "unat ((w::uint) AND 0x3F) < 64"
proof -
  have "w AND 0x3F \<le> 0x3F"
    by (rule word_and_le1)
  then have "unat (w AND 0x3F) \<le> 63"
    by (simp add: word_le_nat_alt)
  then show ?thesis
    by simp
qed

lemma enc_encode_mem: "enc_encode (w AND 0x3F) \<in> set encodeURL"
  unfolding enc_encode_def using and63_lt [of w] by (simp add: length_encodeURL)

lemma decodeMap_enc: "decodeMap (enc_encode (w AND 0x3F)) = Some (w AND 0x3F)"
  unfolding decodeMap_def enc_encode_def
  using index_of_nth [OF distinct_encodeURL, of "unat (w AND 0x3F)"] and63_lt [of w]
  by (simp add: length_encodeURL)

lemma pad_not_in_alphabet: "StdPadding \<notin> set encodeURL"
  unfolding encodeURL_def StdPadding_def by simp

lemma newline_not_in_alphabet: "CHR 0x0D \<notin> set encodeURL" "CHR 0x0A \<notin> set encodeURL"
  unfolding encodeURL_def by simp_all

lemma enc_encode_not_pad: "enc_encode (w AND 0x3F) \<noteq> StdPadding"
  using enc_encode_mem [of w] pad_not_in_alphabet by metis

lemma x3F_mask: "(0x3F :: uint) = mask 6"
  by (simp add: mask_eq_exp_minus_1)

lemma Suc_Suc_diff2:
  "2 \<le> n \<Longrightarrow> Suc (Suc (n - 2)) = n" "\<not> n < 2 \<Longrightarrow> Suc (Suc (n - 2)) = n"
  by simp_all

text \<open>Cutting 24 bits into four sextets and packing them again gives the bytes back.\<close>

lemma quantum3:
  fixes b0 b1 b2 :: byte
  defines "val \<equiv> pack3 b0 b1 b2"
  defines "v \<equiv> pack4 (drop_bit 18 val AND 0x3F) (drop_bit 12 val AND 0x3F)
                      (drop_bit 6 val AND 0x3F) (val AND 0x3F)"
  shows "ucast (drop_bit 16 v) = b0" "ucast (drop_bit 8 v) = b1" "ucast v = b2"
  unfolding v_def val_def x3F_mask pack3_def pack4_def
    apply (rule bit_word_eqI; auto simp add: bit_simps Suc_Suc_diff2 dest: bit_imp_le_length)
   apply (rule bit_word_eqI; auto simp add: bit_simps Suc_Suc_diff2 dest: bit_imp_le_length)
  apply (rule bit_word_eqI; auto simp add: bit_simps Suc_Suc_diff2 dest: bit_imp_le_length)
  done

lemma quantum2:
  fixes b0 b1 :: byte
  defines "val \<equiv> pack2 b0 b1"
  defines "v \<equiv> pack4 (drop_bit 18 val AND 0x3F) (drop_bit 12 val AND 0x3F)
                      (drop_bit 6 val AND 0x3F) 0"
  shows "ucast (drop_bit 16 v) = b0" "ucast (drop_bit 8 v) = b1"
  unfolding v_def val_def x3F_mask pack4_def pack2_def
   apply (rule bit_word_eqI; auto simp add: bit_simps Suc_Suc_diff2 dest: bit_imp_le_length)
  apply (rule bit_word_eqI; auto simp add: bit_simps Suc_Suc_diff2 dest: bit_imp_le_length)
  done

lemma quantum1:
  fixes b0 :: byte
  defines "val \<equiv> pack1 b0"
  defines "v \<equiv> pack4 (drop_bit 18 val AND 0x3F) (drop_bit 12 val AND 0x3F) 0 0"
  shows "ucast (drop_bit 16 v) = b0"
  unfolding v_def val_def x3F_mask pack4_def pack1_def
  by (rule bit_word_eqI; auto simp add: bit_simps Suc_Suc_diff2 dest: bit_imp_le_length)

lemma decode_quanta_EncodeToString: "decode_quanta (EncodeToString bs) = Some bs"
proof (induction bs rule: EncodeToString.induct)
  case (1 b0 b1 b2 src)
  then show ?case
    by (simp add: Let_def decodeMap_enc enc_encode_not_pad quantum3)
next
  case (2 b0 b1)
  then show ?case
    by (simp add: Let_def decodeMap_enc enc_encode_not_pad quantum2)
next
  case (3 b0)
  then show ?case
    by (simp add: Let_def decodeMap_enc enc_encode_not_pad quantum1)
next
  case 4
  then show ?case by simp
qed

lemma EncodeToString_chars:
  "c \<in> set (EncodeToString bs) \<Longrightarrow> c \<in> set encodeURL \<or> c = StdPadding"
  by (induction bs rule: EncodeToString.induct) (auto simp: Let_def enc_encode_mem)

lemma DecodeString_EncodeToString: "DecodeString (EncodeToString bs) = Some bs"
proof -
  have "filter (\<lambda>c. c \<noteq> CHR 0x0D \<and> c \<noteq> CHR 0x0A) (EncodeToString bs) = EncodeToString bs"
  proof (rule filter_True, rule ballI)
    fix c assume "c \<in> set (EncodeToString bs)"
    then have "c \<in> set encodeURL \<or> c = StdPadding" by (rule EncodeToString_chars)
    then show "c \<noteq> CHR 0x0D \<and> c \<noteq> CHR 0x0A"
      using newline_not_in_alphabet by (auto simp: StdPadding_def)
  qed
  then show ?thesis by (simp add: DecodeString_def decode_quanta_EncodeToString)
qed

lemma DecodeString_of_encoded: "EncodeToString bs = s \<Longrightarrow> DecodeString s = Some bs"
  using DecodeString_EncodeToString [of bs] by simp

lemma EncodeToString_inj: "EncodeToString xs = EncodeToString ys \<Longrightarrow> xs = ys"
proof -
  assume "EncodeToString xs = EncodeToString ys"
  then have "DecodeString (EncodeToString xs) = DecodeString (EncodeToString ys)" by simp
  then show "xs = ys" by (simp add: DecodeString_EncodeToString)
qed

section \<open>Token generation\<close>

lemma GenerateToken_Inr:
  "GenerateToken pool n = (Inr s, pool') \<longleftrightarrow>
     n \<le> length pool \<and> s = EncodeToString (take n pool) \<and> pool' = drop n pool"
  by (auto simp: GenerateToken_def rand_Read_def)

lemma GenerateToken_entropy_failure:
  "length pool < n \<Longrightarrow> GenerateToken pool n = (Inl EntropyUnavailable, pool)"
  by (simp add: GenerateToken_def rand_Read_def)

lemma GenerateToken_fails_only_without_entropy:
  "fst (GenerateToken pool n) = Inl e \<longleftrightarrow> length pool < n"
  by (cases e) (auto simp: GenerateToken_def rand_Read_def)

text \<open>
  C9. For every byte length \<open>n\<close>, a successful \<^verbatim>\<open>GenerateToken(n)\<close> returns a string over
  the URL-safe base64 alphabet and its padding character that decodes back to exactly
  the \<open>n\<close> bytes drawn from the randomness source.
\<close>

theorem GenerateToken_decodes_to_drawn_bytes:
  assumes "GenerateToken pool n = (Inr s, pool')"
  shows "DecodeString s = Some (take n pool) \<and> length (take n pool) = n \<and>
         set s \<subseteq> set encodeURL \<union> {StdPadding}"
proof -
  from assms have n: "n \<le> length pool" and s: "s = EncodeToString (take n pool)"
    by (simp_all add: GenerateToken_Inr)
  have "DecodeString s = Some (take n pool)"
    unfolding s by (rule DecodeString_EncodeToString)
  moreover have "length (take n pool) = n"
    using n by simp
  moreover have "set s \<subseteq> set encodeURL \<union> {StdPadding}"
    unfolding s using EncodeToString_chars by blast
  ultimately show ?thesis by blast
qed

theorem GenerateToken_decodes_to_drawn_bytes_witness:
  "GenerateToken [1, 2, 3, 4, 5] 4 = (Inr ''AQIDBA=='', [5]) \<and>
   DecodeString ''AQIDBA=='' = Some [1, 2, 3, 4] \<and>
   set ''AQIDBA=='' \<subseteq> set encodeURL \<union> {StdPadding}"
proof -
  have run: "GenerateToken [1, 2, 3, 4, 5] 4 = (Inr ''AQIDBA=='', [5])"
    by (simp add: GenerateToken_def rand_Read_def Let_def pack3_def pack1_def enc_encode_def
        encodeURL_def StdPadding_def)
  from GenerateToken_decodes_to_drawn_bytes [OF run] run show ?thesis
    by simp
qed

text \<open>
  C4. On a failing randomness source the in-memory \<^verbatim>\<open>generateToken\<close> swallows the error
  and hands the empty string to its caller, where \<^verbatim>\<open>GenerateToken\<close> of the persistent
  service returns the error: asked for 32 bytes from an exhausted source, the read
  fails and \<^verbatim>\<open>generateToken\<close> returns \<^verbatim>\<open>""\<close>.
\<close>

theorem generateToken_swallows_entropy_failure:
  "rand_Read [] 32 = (Inl EntropyUnavailable, []) \<and> generateToken [] 32 = ('''', []) \<and>
   GenerateToken [] 32 = (Inl EntropyUnavailable, [])"
  by (simp add: generateToken_def GenerateToken_def rand_Read_def)

lemma length_EncodeToString: "length (EncodeToString bs) = 4 * ((length bs + 2) div 3)"
proof (induction bs rule: EncodeToString.induct)
  case (1 b0 b1 b2 src)
  have "(length (b0 # b1 # b2 # src) + 2) div 3 = Suc ((length src + 2) div 3)"
    by simp
  with 1 show ?case by (simp add: Let_def)
qed (simp_all add: Let_def)

lemma GenerateAuthTokens_Inr:
  "GenerateAuthTokens conf pool now = (Inr tokens, pool') \<longleftrightarrow>
     128 \<le> length pool \<and>
     tokens = \<lparr>AccessToken = EncodeToString (take 32 pool),
               RefreshToken = EncodeToString (take 64 (drop 32 pool)),
               CSRFToken = EncodeToString (take 32 (drop 96 pool)),
               ExpiresAt = now + AccessTokenDuration conf\<rparr> \<and>
     pool' = drop 128 pool"
  by (auto simp: GenerateAuthTokens_def GenerateToken_def rand_Read_def Time_Add_def
      add.commute)

lemma generateAuthTokens_full:
  "128 \<le> length pool \<Longrightarrow>
   generateAuthTokens pool now =
     (\<lparr>AccessToken = EncodeToString (take 32 pool),
       RefreshToken = EncodeToString (take 64 (drop 32 pool)),
       CSRFToken = EncodeToString (take 32 (drop 96 pool)),
       ExpiresAt = now + 15 * Minute\<rparr>, drop 128 pool)"
  by (simp add: generateAuthTokens_def generateToken_def rand_Read_def Time_Add_def
      add.commute)

lemma generateAuthTokens_ExpiresAt:
  "ExpiresAt (fst (generateAuthTokens pool now)) = now + 15 * Minute"
  by (simp add: generateAuthTokens_def Time_Add_def split: prod.splits)

section \<open>Authorization\<close>

subsection \<open>The in-memory protected handler\<close>

text \<open>
  C10. In the in-memory variant a protected request must name a registered user in its
  body, and the presented tokens are compared with that user's stored bundle only: the
  response is the same for any two maps that agree on the named user; an unregistered
  username is answered with 404 whatever the token headers hold; and a token pair that
  is not the named user's stored pair is rejected, so a pair valid for user A presented
  with username B fails unless it is B's pair as well.
\<close>

theorem protected_binds_tokens_to_named_user:
  assumes "Method r = MethodPost" and "Body r = Some req"
  shows "(db' (json_username req) = db (json_username req) \<longrightarrow>
            protected db' now r = protected db now r) \<and>
         (db (json_username req) = None \<longrightarrow>
            protected db now r = JSONError ''User not found'' 404) \<and>
         (\<forall>userB. db (json_username req) = Some userB \<and>
            X_ACCESS_TOKEN r \<noteq> '''' \<and> X_CSRF_TOKEN r \<noteq> '''' \<and>
            (AccessToken (Tokens userB), CSRFToken (Tokens userB)) \<noteq>
              (X_ACCESS_TOKEN r, X_CSRF_TOKEN r) \<longrightarrow>
            protected db now r = JSONError ''Invalid authentication tokens'' 401)"
  using assms by (auto simp: protected_def split: option.splits)

theorem protected_binds_tokens_to_named_user_witness:
  "protected sample_map 50 (request ''tokA'' ''csrfA'' (body_of ''alice123'' [] [])) =
     JSONMessage 200 ''Protected resource accessed by user: alice123'' \<and>
   protected sample_map 50 (request ''tokA'' ''csrfA'' (body_of ''bob45678'' [] [])) =
     JSONError ''Invalid authentication tokens'' 401 \<and>
   protected sample_map 50 (request ''tokA'' ''csrfA'' (body_of ''carol999'' [] [])) =
     JSONError ''User not found'' 404"
proof -
  let ?bobs = "\<lparr>HashedPassword = ''hashB'', Tokens = bob_tokens\<rparr>"
  let ?rb = "request ''tokA'' ''csrfA'' (body_of ''bob45678'' [] [])"
  let ?rc = "request ''tokA'' ''csrfA'' (body_of ''carol999'' [] [])"
  have m: "Method ?rb = MethodPost" "Method ?rc = MethodPost"
    by (simp_all add: request_def)
  have bb: "Body ?rb = Some \<lparr>json_username = ''bob45678'', json_password = [],
                              json_refreshToken = []\<rparr>"
    by (simp add: request_def body_of_def)
  have bc: "Body ?rc = Some \<lparr>json_username = ''carol999'', json_password = [],
                              json_refreshToken = []\<rparr>"
    by (simp add: request_def body_of_def)
  have bob: "sample_map ''bob45678'' = Some ?bobs"
    by (simp add: sample_map_def)
  have carol: "sample_map ''carol999'' = None"
    by (simp add: sample_map_def)
  have 1: "protected sample_map 50 ?rb = JSONError ''Invalid authentication tokens'' 401"
    using protected_binds_tokens_to_named_user [OF m(1) bb, of sample_map sample_map 50] bob
    by (simp add: request_def bob_tokens_def)
  have 2: "protected sample_map 50 ?rc = JSONError ''User not found'' 404"
    using protected_binds_tokens_to_named_user [OF m(2) bc, of sample_map sample_map 50] carol
    by simp
  have 3: "protected sample_map 50 (request ''tokA'' ''csrfA'' (body_of ''alice123'' [] [])) =
     JSONMessage 200 ''Protected resource accessed by user: alice123''"
    by (simp add: protected_def request_def body_of_def sample_map_def alice_tokens_def
        Time_After_def)
  from 1 2 3 show ?thesis by simp
qed

subsection \<open>The expiry gate\<close>

lemma set_map_filter: "set (List.map_filter f xs) = {y. \<exists>x \<in> set xs. f x = Some y}"
  by (induction xs) (auto simp: List.map_filter_simps split: option.splits)

lemma Authorize_loop_expired:
  assumes "l \<in> set ls" and "AccessToken (Tokens l) = a"
    and "\<forall>l' \<in> set ls. AccessToken (Tokens l') = a \<longrightarrow> ExpiresAt (Tokens l') < now"
  shows "Authorize_loop ls now a c = Inl AccessTokenExpired"
  using assms
proof (induction ls)
  case Nil
  then show ?case by simp
next
  case (Cons x xs)
  show ?case
  proof (cases "AccessToken (Tokens x) = a")
    case True
    with Cons.prems(3) have "ExpiresAt (Tokens x) < now" by simp
    with True show ?thesis by (simp add: Time_After_def)
  next
    case False
    with Cons.prems(1,2) have "l \<in> set xs" by auto
    with Cons.IH Cons.prems(2,3) False show ?thesis by simp
  qed
qed

lemma Handler_Protected_expired:
  assumes "Method r = MethodPost" "X_ACCESS_TOKEN r \<noteq> ''''" "X_CSRF_TOKEN r \<noteq> ''''"
    and "GetAuthTokensByAccessToken d (X_ACCESS_TOKEN r) = (Inr (Some (token, user)), d1)"
    and "t_csrf_token token = X_CSRF_TOKEN r"
  shows "Handler_Protected d now r =
           (if t_expires_at token < now then (JSONError ''Access token expired'' 401, d1)
            else (JSONMessage 200 (''Protected resource accessed by user: '' @ u_username user), d1))"
  using assms by (simp add: Handler_Protected_def Time_After_def)

lemma Authorize_expired:
  assumes "X_ACCESS_TOKEN r \<noteq> ''''" "X_CSRF_TOKEN r \<noteq> ''''"
    and "owner \<in> set order" "db owner = Some userData"
    and "AccessToken (Tokens userData) = X_ACCESS_TOKEN r"
    and "ExpiresAt (Tokens userData) < now"
    and "\<forall>k \<in> set order. \<forall>l. db k = Some l \<and> AccessToken (Tokens l) = X_ACCESS_TOKEN r
           \<longrightarrow> l = userData"
  shows "Authorize db order now r = Some AccessTokenExpired"
proof -
  have mem: "userData \<in> set (List.map_filter db order)"
    using assms(3,4) by (auto simp: set_map_filter)
  have all: "\<forall>l' \<in> set (List.map_filter db order).
               AccessToken (Tokens l') = X_ACCESS_TOKEN r \<longrightarrow> ExpiresAt (Tokens l') < now"
    using assms(6,7) by (auto simp: set_map_filter)
  from Authorize_loop_expired [OF mem assms(5) all]
  show ?thesis using assms(1,2) by (simp add: Authorize_def)
qed

text \<open>
  C1, as the code has it. The gate is \<^verbatim>\<open>time.Now().After(ExpiresAt)\<close>, so it fires
  strictly after the instant of expiry. With non-empty token headers: in the persistent
  \<^verbatim>\<open>Protected\<close> handler a bundle resolved by the access token whose anti-forgery token
  matches is refused with "Access token expired" when \<open>expiresAt < now\<close>; in the in-memory
  \<^verbatim>\<open>Authorize\<close> the only stored bundle with the presented access token is refused with
  the expiry error when \<open>expiresAt < now\<close>, whatever anti-forgery value is presented.
\<close>

theorem expired_bundle_is_refused:
  assumes "X_ACCESS_TOKEN r \<noteq> ''''" and "X_CSRF_TOKEN r \<noteq> ''''"
  shows "(Method r = MethodPost \<and>
          GetAuthTokensByAccessToken d (X_ACCESS_TOKEN r) = (Inr (Some (token, user)), d1) \<and>
          t_csrf_token token = X_CSRF_TOKEN r \<and> t_expires_at token < now \<longrightarrow>
            Handler_Protected d now r = (JSONError ''Access token expired'' 401, d1)) \<and>
         (owner \<in> set order \<and> db owner = Some userData \<and>
          AccessToken (Tokens userData) = X_ACCESS_TOKEN r \<and>
          ExpiresAt (Tokens userData) < now \<and>
          (\<forall>k \<in> set order. \<forall>l. db k = Some l \<and> AccessToken (Tokens l) = X_ACCESS_TOKEN r
             \<longrightarrow> l = userData) \<longrightarrow>
            Authorize db order now r = Some AccessTokenExpired)"
proof (intro conjI impI)
  assume "Method r = MethodPost \<and>
          GetAuthTokensByAccessToken d (X_ACCESS_TOKEN r) = (Inr (Some (token, user)), d1) \<and>
          t_csrf_token token = X_CSRF_TOKEN r \<and> t_expires_at token < now"
  then show "Handler_Protected d now r = (JSONError ''Access token expired'' 401, d1)"
    using assms Handler_Protected_expired [of r d token user d1 now] by simp
next
  assume "owner \<in> set order \<and> db owner = Some userData \<and>
          AccessToken (Tokens userData) = X_ACCESS_TOKEN r \<and>
          ExpiresAt (Tokens userData) < now \<and>
          (\<forall>k \<in> set order. \<forall>l. db k = Some l \<and> AccessToken (Tokens l) = X_ACCESS_TOKEN r
             \<longrightarrow> l = userData)"
  then show "Authorize db order now r = Some AccessTokenExpired"
    using assms Authorize_expired [of r owner order db userData now] by blast
qed

lemma sample_store_lookup_alice:
  "GetAuthTokensByAccessToken sample_store ''tokA'' =
     (Inr (Some (dbToken_of 1 alice_tokens, alice)), sample_store)"
  by (simp add: GetAuthTokensByAccessToken_def exec_stmt_def sample_store_def joined_rows_def
      dbToken_of_def alice_tokens_def bob_tokens_def alice_def bob_def)

theorem expired_bundle_is_refused_witness:
  "Handler_Protected sample_store 101 (request ''tokA'' ''csrfA'' None) =
     (JSONError ''Access token expired'' 401, sample_store) \<and>
   Authorize sample_map [''alice123'', ''bob45678''] 101 (request ''tokA'' ''csrfX'' None) =
     Some AccessTokenExpired"
proof -
  let ?r = "request ''tokA'' ''csrfA'' None"
  let ?q = "request ''tokA'' ''csrfX'' None"
  let ?alice = "\<lparr>HashedPassword = ''hashA'', Tokens = alice_tokens\<rparr>"
  have r: "X_ACCESS_TOKEN ?r \<noteq> ''''" "X_CSRF_TOKEN ?r \<noteq> ''''"
    and q: "X_ACCESS_TOKEN ?q \<noteq> ''''" "X_CSRF_TOKEN ?q \<noteq> ''''"
    by (simp_all add: request_def)
  have look: "GetAuthTokensByAccessToken sample_store (X_ACCESS_TOKEN ?r) =
                (Inr (Some (dbToken_of 1 alice_tokens, alice)), sample_store)"
    using sample_store_lookup_alice by (simp add: request_def)
  have pre1: "Method ?r = MethodPost \<and>
      GetAuthTokensByAccessToken sample_store (X_ACCESS_TOKEN ?r) =
        (Inr (Some (dbToken_of 1 alice_tokens, alice)), sample_store) \<and>
      t_csrf_token (dbToken_of 1 alice_tokens) = X_CSRF_TOKEN ?r \<and>
      t_expires_at (dbToken_of 1 alice_tokens) < 101"
    using look by (simp add: request_def dbToken_of_def alice_tokens_def)
  have pre2: "''alice123'' \<in> set [''alice123'', ''bob45678''] \<and>
      sample_map ''alice123'' = Some ?alice \<and>
      AccessToken (Tokens ?alice) = X_ACCESS_TOKEN ?q \<and>
      ExpiresAt (Tokens ?alice) < 101 \<and>
      (\<forall>k \<in> set [''alice123'', ''bob45678'']. \<forall>l.
         sample_map k = Some l \<and> AccessToken (Tokens l) = X_ACCESS_TOKEN ?q \<longrightarrow> l = ?alice)"
    by (simp add: sample_map_def request_def alice_tokens_def bob_tokens_def)
  from expired_bundle_is_refused [OF r, where d = sample_store
      and token = "dbToken_of 1 alice_tokens" and user = alice and ?d1.0 = sample_store
      and now = 101] pre1
  have 1: "Handler_Protected sample_store 101 ?r =
             (JSONError ''Access token expired'' 401, sample_store)"
    by blast
  from expired_bundle_is_refused [OF q, where owner = "''alice123''"
      and order = "[''alice123'', ''bob45678'']" and db = sample_map and userData = ?alice
      and now = 101] pre2
  have 2: "Authorize sample_map [''alice123'', ''bob45678''] 101 ?q = Some AccessTokenExpired"
    by blast
  from 1 2 show ?thesis by simp
qed

text \<open>
  At the instant of expiry itself the correct pair is still accepted by both variants,
  and the persistent handler compares the anti-forgery token before it looks at the
  expiry: an expired bundle presented with a wrong anti-forgery token is answered with
  "Invalid CSRF token".
\<close>

theorem expiry_gate_counterexample:
  "Handler_Protected sample_store 100 (request ''tokA'' ''csrfA'' None) =
     (JSONMessage 200 ''Protected resource accessed by user: alice123'', sample_store) \<and>
   Authorize sample_map [''alice123'', ''bob45678''] 100 (request ''tokA'' ''csrfA'' None) = None \<and>
   Handler_Protected sample_store 101 (request ''tokA'' ''csrfX'' None) =
     (JSONError ''Invalid CSRF token'' 401, sample_store)"
proof -
  have 1: "Handler_Protected sample_store 100 (request ''tokA'' ''csrfA'' None) =
     (JSONMessage 200 ''Protected resource accessed by user: alice123'', sample_store)"
    by (simp add: Handler_Protected_def request_def sample_store_lookup_alice Time_After_def
        dbToken_of_def alice_tokens_def alice_def)
  have 2: "Authorize sample_map [''alice123'', ''bob45678''] 100
             (request ''tokA'' ''csrfA'' None) = None"
    by (simp add: Authorize_def request_def sample_map_def List.map_filter_simps
        alice_tokens_def bob_tokens_def Time_After_def)
  have 3: "Handler_Protected sample_store 101 (request ''tokA'' ''csrfX'' None) =
     (JSONError ''Invalid CSRF token'' 401, sample_store)"
    by (simp add: Handler_Protected_def request_def sample_store_lookup_alice
        dbToken_of_def alice_tokens_def)
  from 1 2 3 show ?thesis by simp
qed

subsection \<open>Credential-comparison failures\<close>

lemma Authorize_loop_no_match:
  assumes "\<forall>l \<in> set ls. AccessToken (Tokens l) = a \<longrightarrow>
             \<not> Time_After now (ExpiresAt (Tokens l)) \<and> CSRFToken (Tokens l) \<noteq> c"
  shows "Authorize_loop ls now a c = Inr False"
  using assms by (induction ls) auto

text \<open>
  The in-memory \<^verbatim>\<open>Authorize\<close> gives one answer to an unknown access token and to a wrong
  anti-forgery token.
\<close>

lemma Authorize_comparison_failures_uniform:
  assumes "\<forall>l \<in> set (List.map_filter db order). AccessToken (Tokens l) = X_ACCESS_TOKEN r \<longrightarrow>
             \<not> Time_After now (ExpiresAt (Tokens l)) \<and> CSRFToken (Tokens l) \<noteq> X_CSRF_TOKEN r"
  shows "Authorize db order now r = Some ErrAuth"
  using Authorize_loop_no_match [OF assms] by (simp add: Authorize_def)

text \<open>
  C7. The persistent \<^verbatim>\<open>Protected\<close> handler tells the two failures apart: an access token
  that resolves no bundle is answered with "Invalid access token", a stored access token
  with a wrong anti-forgery token with "Invalid CSRF token".
\<close>

theorem Protected_distinguishes_credential_failures:
  "fst (Handler_Protected sample_store 50 (request ''tokX'' ''csrfA'' None)) =
     JSONError ''Invalid access token'' 401 \<and>
   fst (Handler_Protected sample_store 50 (request ''tokA'' ''csrfX'' None)) =
     JSONError ''Invalid CSRF token'' 401 \<and>
   Authorize sample_map [''alice123'', ''bob45678''] 50 (request ''tokX'' ''csrfA'' None) =
     Some ErrAuth \<and>
   Authorize sample_map [''alice123'', ''bob45678''] 50 (request ''tokA'' ''csrfX'' None) =
     Some ErrAuth"
proof -
  have none: "GetAuthTokensByAccessToken sample_store ''tokX'' = (Inr None, sample_store)"
    by (simp add: GetAuthTokensByAccessToken_def exec_stmt_def sample_store_def joined_rows_def
        dbToken_of_def alice_tokens_def bob_tokens_def alice_def bob_def)
  have 1: "fst (Handler_Protected sample_store 50 (request ''tokX'' ''csrfA'' None)) =
     JSONError ''Invalid access token'' 401"
    by (simp add: Handler_Protected_def request_def none)
  have 2: "fst (Handler_Protected sample_store 50 (request ''tokA'' ''csrfX'' None)) =
     JSONError ''Invalid CSRF token'' 401"
    by (simp add: Handler_Protected_def request_def sample_store_lookup_alice
        dbToken_of_def alice_tokens_def)
  have 3: "Authorize sample_map [''alice123'', ''bob45678''] 50
             (request ''tokX'' ''csrfA'' None) = Some ErrAuth"
    by (simp add: Authorize_def request_def sample_map_def List.map_filter_simps
        alice_tokens_def bob_tokens_def Time_After_def)
  have 4: "Authorize sample_map [''alice123'', ''bob45678''] 50
             (request ''tokA'' ''csrfX'' None) = Some ErrAuth"
    by (simp add: Authorize_def request_def sample_map_def List.map_filter_simps
        alice_tokens_def bob_tokens_def Time_After_def)
  from 1 2 3 4 show ?thesis by simp
qed

section \<open>The store\<close>

lemma find_Some_mem: "find P xs = Some x \<Longrightarrow> x \<in> set xs"
  by (induction xs) (auto split: if_splits)

lemma find_Some_holds: "find P xs = Some x \<Longrightarrow> P x"
  by (induction xs) (auto split: if_splits)

lemma find_exists: "x \<in> set xs \<Longrightarrow> P x \<Longrightarrow> \<exists>y. find P xs = Some y"
  by (induction xs) auto

lemma exec_stmt_no_fault: "faults d = [] \<Longrightarrow> exec_stmt d = (False, d)"
  by (simp add: exec_stmt_def)

lemma exec_stmt_tables [simp]:
  "auth_tokens (snd (exec_stmt d)) = auth_tokens d" "users (snd (exec_stmt d)) = users d"
  by (simp_all add: exec_stmt_def split: list.splits)

lemma exec_stmt_eq:
  "exec_stmt d = (f, d') \<Longrightarrow> auth_tokens d' = auth_tokens d \<and> users d' = users d"
  using exec_stmt_tables [of d] by simp

lemma GetUserByUsername_tables:
  "GetUserByUsername d name = (res, d') \<Longrightarrow> auth_tokens d' = auth_tokens d \<and> users d' = users d"
  by (auto simp: GetUserByUsername_def split: prod.splits bool.splits dest: exec_stmt_eq)



lemma GetAuthTokensByRefreshToken_traced_tables:
  "GetAuthTokensByRefreshToken_traced d a = (res, d') \<Longrightarrow>
     auth_tokens d' = auth_tokens d \<and> users d' = users d"
  by (auto simp: GetAuthTokensByRefreshToken_traced_def split: prod.splits bool.splits
      dest: exec_stmt_eq)

text \<open>The three outcomes of \<^verbatim>\<open>SaveAuthTokens\<close> and the table each one leaves.\<close>

lemma SaveAuthTokens_cases:
  assumes "SaveAuthTokens d userID tokens = (res, d')"
  shows "users d' = users d \<and>
         ((res = Some FailedToDelete \<and> auth_tokens d' = auth_tokens d) \<or>
          (res = Some FailedToSave \<and>
             auth_tokens d' = filter (\<lambda>t. t_user_id t \<noteq> userID) (auth_tokens d)) \<or>
          (res = None \<and>
             auth_tokens d' =
               filter (\<lambda>t. t_user_id t \<noteq> userID) (auth_tokens d) @ [tokens\<lparr>t_user_id := userID\<rparr>] \<and>
             t_access_token tokens \<notin>
               set (map t_access_token (filter (\<lambda>t. t_user_id t \<noteq> userID) (auth_tokens d))) \<and>
             t_refresh_token tokens \<notin>
               set (map t_refresh_token (filter (\<lambda>t. t_user_id t \<noteq> userID) (auth_tokens d)))))"
proof -
  obtain f1 d1 where e1: "exec_stmt d = (f1, d1)" by (cases "exec_stmt d")
  obtain f2 d2 where e2: "exec_stmt (delete_tokens_of userID d1) = (f2, d2)"
    by (cases "exec_stmt (delete_tokens_of userID d1)")
  from exec_stmt_eq [OF e1] have t1: "auth_tokens d1 = auth_tokens d" "users d1 = users d"
    by simp_all
  from exec_stmt_eq [OF e2] t1
  have t2: "auth_tokens d2 = filter (\<lambda>t. t_user_id t \<noteq> userID) (auth_tokens d)"
    "users d2 = users d"
    by (simp_all add: delete_tokens_of_def)
  show ?thesis
  proof (cases f1)
    case True
    with assms e1 t1 show ?thesis by (simp add: SaveAuthTokens_def)
  next
    case f1: False
    show ?thesis
    proof (cases f2)
      case True
      with assms e1 e2 f1 t2 show ?thesis by (simp add: SaveAuthTokens_def)
    next
      case f2: False
      show ?thesis
      proof (cases "insert_refused d2 (tokens\<lparr>t_user_id := userID\<rparr>)")
        case True
        with assms e1 e2 f1 f2 t2 show ?thesis by (simp add: SaveAuthTokens_def Let_def)
      next
        case False
        with assms e1 e2 f1 f2 have "res = None"
          and "d' = d2\<lparr>auth_tokens := auth_tokens d2 @ [tokens\<lparr>t_user_id := userID\<rparr>]\<rparr>"
          by (simp_all add: SaveAuthTokens_def Let_def)
        with False t2 show ?thesis by (simp add: insert_refused_def)
      qed
    qed
  qed
qed

lemma store_ok_Nil: "store_ok []"
  by (simp add: store_ok_def)









lemma bundles_split:
  "bundles_of d' userID = filter (\<lambda>t. t_user_id t = userID) (auth_tokens d')"
  "bundles_of_others d' userID = filter (\<lambda>t. t_user_id t \<noteq> userID) (auth_tokens d')"
  by (simp_all add: bundles_of_def bundles_of_others_def)

lemma filter_eq_of_neq [simp]:
  "filter (\<lambda>t. t_user_id t = userID) (filter (\<lambda>t. t_user_id t \<noteq> userID) ts) = []"
  by (induction ts) auto

text \<open>
  C6, as the code has it. \<^verbatim>\<open>SaveAuthTokens\<close> runs a \<^verbatim>\<open>DELETE\<close> and then an \<^verbatim>\<open>INSERT\<close>
  as two statements outside any transaction. Whatever the outcome, the rows of other
  owners are untouched. On success the owner holds exactly the new bundle. When the
  \<^verbatim>\<open>DELETE\<close> fails the table is unchanged. When the \<^verbatim>\<open>INSERT\<close> fails the owner's previous
  bundle is already gone and the owner is left with none.
\<close>

theorem SaveAuthTokens_deletes_then_inserts:
  assumes "SaveAuthTokens d userID tokens = (res, d')"
  shows "bundles_of_others d' userID = bundles_of_others d userID \<and>
         res \<in> {None, Some FailedToDelete, Some FailedToSave} \<and>
         (res = None \<longrightarrow> bundles_of d' userID = [tokens\<lparr>t_user_id := userID\<rparr>]) \<and>
         (res = Some FailedToDelete \<longrightarrow> auth_tokens d' = auth_tokens d) \<and>
         (res = Some FailedToSave \<longrightarrow> bundles_of d' userID = [])"
  using SaveAuthTokens_cases [OF assms]
  by (auto simp: bundles_split)

lemma sample_store_save:
  "SaveAuthTokens sample_store 1 (dbToken_of 1 new_tokens) =
     (None, sample_store\<lparr>auth_tokens := [dbToken_of 2 bob_tokens, dbToken_of 1 new_tokens]\<rparr>)"
  by (simp add: SaveAuthTokens_def exec_stmt_def delete_tokens_of_def sample_store_def
      dbToken_of_def insert_refused_def alice_def bob_def alice_tokens_def bob_tokens_def
      new_tokens_def)

theorem SaveAuthTokens_deletes_then_inserts_witness:
  "SaveAuthTokens sample_store 1 (dbToken_of 1 new_tokens) =
     (None, sample_store\<lparr>auth_tokens := [dbToken_of 2 bob_tokens, dbToken_of 1 new_tokens]\<rparr>) \<and>
   bundles_of (sample_store\<lparr>auth_tokens := [dbToken_of 2 bob_tokens, dbToken_of 1 new_tokens]\<rparr>) 1 =
     [dbToken_of 1 new_tokens] \<and>
   bundles_of_others
     (sample_store\<lparr>auth_tokens := [dbToken_of 2 bob_tokens, dbToken_of 1 new_tokens]\<rparr>) 1 =
     bundles_of_others sample_store 1"
  using SaveAuthTokens_deletes_then_inserts [OF sample_store_save] sample_store_save
  by (simp add: dbToken_of_def)

text \<open>
  The upsert is not atomic and does not leave the state unchanged on error. Alice holds
  a bundle; the \<^verbatim>\<open>DELETE\<close> of an upsert for her succeeds and its \<^verbatim>\<open>INSERT\<close> fails in the
  driver: \<^verbatim>\<open>SaveAuthTokens\<close> returns an error, and her previous bundle is no longer
  stored and her access token no longer resolves.
\<close>

theorem SaveAuthTokens_atomic_counterexample:
  "fst (GetAuthTokensByAccessToken (sample_store\<lparr>faults := [False, True]\<rparr>) ''tokA'') =
     Inr (Some (dbToken_of 1 alice_tokens, alice)) \<and>
   fst (SaveAuthTokens (sample_store\<lparr>faults := [False, True]\<rparr>) 1
          (dbToken_of 1 new_tokens)) = Some FailedToSave \<and>
   bundles_of (snd (SaveAuthTokens (sample_store\<lparr>faults := [False, True]\<rparr>) 1
          (dbToken_of 1 new_tokens))) 1 = [] \<and>
   fst (GetAuthTokensByAccessToken
          (snd (SaveAuthTokens (sample_store\<lparr>faults := [False, True]\<rparr>) 1
             (dbToken_of 1 new_tokens))) ''tokA'') = Inr None"
  by (simp add: SaveAuthTokens_def GetAuthTokensByAccessToken_def exec_stmt_def
      delete_tokens_of_def sample_store_def dbToken_of_def joined_rows_def bundles_of_def
      alice_tokens_def bob_tokens_def alice_def bob_def new_tokens_def)

subsection \<open>One bundle per owner\<close>

lemma joined_rows_token: "(t, u) \<in> set (joined_rows d) \<Longrightarrow> t \<in> set (auth_tokens d)"
  by (auto simp: joined_rows_def)



lemma distinct_map_unique:
  "distinct (map f xs) \<Longrightarrow> x \<in> set xs \<Longrightarrow> y \<in> set xs \<Longrightarrow> f x = f y \<Longrightarrow> x = y"
  by (auto simp: distinct_map dest: inj_onD)






lemma dbToken_of_user_id [simp]: "(dbToken_of userID tokens)\<lparr>t_user_id := userID\<rparr> = dbToken_of userID tokens"
  by (simp add: dbToken_of_def)

lemma dbToken_of_fields [simp]:
  "t_user_id (dbToken_of userID tokens) = userID"
  "t_access_token (dbToken_of userID tokens) = AccessToken tokens"
  "t_refresh_token (dbToken_of userID tokens) = RefreshToken tokens"
  "t_csrf_token (dbToken_of userID tokens) = CSRFToken tokens"
  "t_expires_at (dbToken_of userID tokens) = ExpiresAt tokens"
  by (simp_all add: dbToken_of_def)


section \<open>Rotation\<close>

lemma refreshAuthTokens_Inr:
  assumes "refreshAuthTokens db pool now presented username = (Inr newTokens, pool')"
  shows "\<exists>userData. db username = Some userData \<and>
           RefreshToken (Tokens userData) = presented \<and>
           newTokens = (fst (generateAuthTokens pool now))
                         \<lparr>RefreshToken := RefreshToken (Tokens userData)\<rparr> \<and>
           pool' = snd (generateAuthTokens pool now)"
  using assms
  by (auto simp: refreshAuthTokens_def ConstantTimeCompare_def
      split: option.splits if_splits prod.splits)

lemma Handler_RefreshToken_with_success:
  assumes "Handler_RefreshToken_with lookup conf d pool now r =
             (AuthResponse msg newTokens, d', pool')"
  shows "\<exists>(req :: Payload) (user :: User) d1 token (owner :: User) d2 generated.
           Body r = Some req \<and>
           GetUserByUsername d (json_username req) = (Inr (Some user), d1) \<and>
           lookup d1 (json_refreshToken req) = (Inr (Some (token, owner)), d2) \<and>
           t_user_id token = u_id user \<and> t_refresh_token token = json_refreshToken req \<and>
           GenerateAuthTokens conf pool now = (Inr generated, pool') \<and>
           newTokens = generated\<lparr>RefreshToken := t_refresh_token token\<rparr> \<and>
           SaveAuthTokens d2 (u_id user) (dbToken_of (u_id user) newTokens) = (None, d')"
  using assms
  by (auto simp: Handler_RefreshToken_with_def ValidateRefreshToken_def
      ConstantTimeCompare_def Let_def
      split: option.splits prod.splits sum.splits if_splits)

text \<open>
  With the lookup by refresh token of the first \<^verbatim>\<open>postgres.go\<close>, a stub that finds
  nothing, the \<^verbatim>\<open>RefreshToken\<close> handler never succeeds.
\<close>

lemma Handler_RefreshToken_never_succeeds:
  "fst (Handler_RefreshToken conf d pool now r) \<noteq> AuthResponse msg newTokens"
proof
  assume "fst (Handler_RefreshToken conf d pool now r) = AuthResponse msg newTokens"
  then obtain d' pool' where
    "Handler_RefreshToken_with GetAuthTokensByRefreshToken conf d pool now r =
       (AuthResponse msg newTokens, d', pool')"
    unfolding Handler_RefreshToken_def
    by (cases "Handler_RefreshToken_with GetAuthTokensByRefreshToken conf d pool now r") auto
  from Handler_RefreshToken_with_success [OF this] show False
    by (auto simp: GetAuthTokensByRefreshToken_def)
qed

text \<open>
  With the lookup that runs the query, a rotation does succeed for a stored bundle
  whose refresh token is presented by its owner, as long as no statement fails in the
  driver, the randomness source delivers its 128 bytes and the new access token is not
  already stored for another owner.
\<close>

lemma rotation_succeeds_with_query:
  fixes req :: Payload and user :: User
  assumes post: "Method r = MethodPost" and body: "Body r = Some req"
    and nofault: "faults d = []"
    and user: "find (\<lambda>u. u_username u = json_username req) (users d) = Some user"
    and old: "old \<in> set (bundles_of d (u_id user))"
      "t_refresh_token old = json_refreshToken req"
    and ok: "store_ok (auth_tokens d)"
    and pool: "128 \<le> length pool"
    and fresh: "EncodeToString (take 32 pool) \<notin>
                  set (map t_access_token (bundles_of_others d (u_id user)))"
    and len: "length (json_refreshToken req) \<le> 255"
  shows "Handler_RefreshToken_traced conf d pool now r =
    (AuthResponse ''Tokens refreshed successfully''
       \<lparr>AccessToken = EncodeToString (take 32 pool), RefreshToken = json_refreshToken req,
        CSRFToken = EncodeToString (take 32 (drop 96 pool)),
        ExpiresAt = now + AccessTokenDuration conf\<rparr>,
     d\<lparr>auth_tokens := bundles_of_others d (u_id user) @
        [dbToken_of (u_id user)
          \<lparr>AccessToken = EncodeToString (take 32 pool), RefreshToken = json_refreshToken req,
           CSRFToken = EncodeToString (take 32 (drop 96 pool)),
           ExpiresAt = now + AccessTokenDuration conf\<rparr>]\<rparr>,
     drop 128 pool)"
proof -
  let ?N = "\<lparr>AccessToken = EncodeToString (take 32 pool), RefreshToken = json_refreshToken req,
        CSRFToken = EncodeToString (take 32 (drop 96 pool)),
        ExpiresAt = now + AccessTokenDuration conf\<rparr>"
  let ?P = "\<lambda>(t, u :: User). t_refresh_token t = json_refreshToken req"
  from old have mem: "old \<in> set (auth_tokens d)" and own: "t_user_id old = u_id user"
    by (simp_all add: bundles_of_def)
  have get: "GetUserByUsername d (json_username req) = (Inr (Some user), d)"
    using user by (simp add: GetUserByUsername_def exec_stmt_no_fault [OF nofault])
  from user have umem: "user \<in> set (users d)" by (rule find_Some_mem)
  with mem own have "(old, user) \<in> set (joined_rows d)"
    by (simp add: joined_rows_def)
  moreover have "?P (old, user)" using old(2) by simp
  ultimately obtain y where y: "find ?P (joined_rows d) = Some y"
    using find_exists [of "(old, user)" "joined_rows d" ?P] by blast
  obtain t u where tu: "y = (t, u)" by (cases y)
  from find_Some_mem [OF y] tu have "t \<in> set (auth_tokens d)"
    by (auto dest: joined_rows_token)
  moreover from find_Some_holds [OF y] tu have "t_refresh_token t = t_refresh_token old"
    using old(2) by simp
  moreover from ok have "distinct (map t_refresh_token (auth_tokens d))"
    by (simp add: store_ok_def)
  ultimately have "t = old" using mem by (blast dest: distinct_map_unique)
  with y tu have look: "GetAuthTokensByRefreshToken_traced d (json_refreshToken req) =
                          (Inr (Some (old, u)), d)"
    by (simp add: GetAuthTokensByRefreshToken_traced_def exec_stmt_no_fault [OF nofault])
  have gen: "GenerateAuthTokens conf pool now =
               (Inr \<lparr>AccessToken = EncodeToString (take 32 pool),
                      RefreshToken = EncodeToString (take 64 (drop 32 pool)),
                      CSRFToken = EncodeToString (take 32 (drop 96 pool)),
                      ExpiresAt = now + AccessTokenDuration conf\<rparr>, drop 128 pool)"
    using pool by (simp add: GenerateAuthTokens_Inr)
  have others: "json_refreshToken req \<notin> set (map t_refresh_token (bundles_of_others d (u_id user)))"
  proof
    assume "json_refreshToken req \<in> set (map t_refresh_token (bundles_of_others d (u_id user)))"
    then obtain x where x: "x \<in> set (auth_tokens d)" "t_user_id x \<noteq> u_id user"
      "t_refresh_token x = t_refresh_token old"
      using old(2) by (auto simp: bundles_of_others_def)
    from ok have "distinct (map t_refresh_token (auth_tokens d))" by (simp add: store_ok_def)
    from distinct_map_unique [OF this x(1) mem x(3)] x(2) own show False by simp
  qed
  have lens: "length (EncodeToString (take 32 pool)) \<le> 255"
    "length (EncodeToString (take 32 (drop 96 pool))) \<le> 255"
    using pool by (simp_all add: length_EncodeToString)
  have "\<not> insert_refused (delete_tokens_of (u_id user) d) (dbToken_of (u_id user) ?N)"
    using umem fresh others lens len
    by (simp add: insert_refused_def delete_tokens_of_def bundles_of_others_def)
  then have save: "SaveAuthTokens d (u_id user) (dbToken_of (u_id user) ?N) =
      (None, d\<lparr>auth_tokens := bundles_of_others d (u_id user) @ [dbToken_of (u_id user) ?N]\<rparr>)"
    using nofault
    by (simp add: SaveAuthTokens_def exec_stmt_def delete_tokens_of_def bundles_of_others_def)
  show ?thesis
    using post body own old(2)
    by (simp add: Handler_RefreshToken_traced_def Handler_RefreshToken_with_def get look gen
        save ValidateRefreshToken_def ConstantTimeCompare_def Let_def)
qed

text \<open>
  C5. A bundle is stored for Alice with refresh token \<^verbatim>\<open>refA\<close>, and she presents it.
  The lookup by refresh token of the first \<^verbatim>\<open>postgres.go\<close> resolves nothing and the
  handler answers 401 "Invalid refresh token" instead of rotating; with the lookup of
  the second \<^verbatim>\<open>postgres.go\<close>, which runs the query, the same request is resolved and
  rotated.
\<close>

theorem RefreshToken_stub_rejects_stored_refresh_token:
  "bundles_of sample_store 1 = [dbToken_of 1 alice_tokens] \<and>
   RefreshToken alice_tokens = ''refA'' \<and>
   fst (GetAuthTokensByRefreshToken sample_store ''refA'') = Inr None \<and>
   fst (Handler_RefreshToken sample_conf sample_store zero_pool 50
          (request [] [] (body_of ''alice123'' [] ''refA''))) =
     JSONError ''Invalid refresh token'' 401 \<and>
   fst (GetAuthTokensByRefreshToken_traced sample_store ''refA'') =
     Inr (Some (dbToken_of 1 alice_tokens, alice)) \<and>
   fst (Handler_RefreshToken_traced sample_conf sample_store zero_pool 50
          (request [] [] (body_of ''alice123'' [] ''refA''))) =
     AuthResponse ''Tokens refreshed successfully''
       ((zero_bundle (50 + 15 * Minute))\<lparr>RefreshToken := ''refA''\<rparr>)"
  by code_simp

text \<open>
  What a successful rotation returns: the presented refresh secret, which is the one
  of the bundle it replaces, and otherwise the fields of a newly generated bundle.
\<close>

lemma refreshAuthTokens_keeps_refresh_secret:
  assumes "refreshAuthTokens db pool now presented username = (Inr newTokens, pool')"
  shows "\<exists>userData. db username = Some userData \<and>
           RefreshToken newTokens = RefreshToken (Tokens userData) \<and>
           RefreshToken newTokens = presented \<and>
           newTokens = (fst (generateAuthTokens pool now))\<lparr>RefreshToken := presented\<rparr> \<and>
           ExpiresAt newTokens = now + 15 * Minute"
proof -
  from refreshAuthTokens_Inr [OF assms] obtain userData where
    u: "db username = Some userData" "RefreshToken (Tokens userData) = presented"
    and new: "newTokens = (fst (generateAuthTokens pool now))\<lparr>RefreshToken := presented\<rparr>"
    by auto
  have "ExpiresAt newTokens = now + 15 * Minute"
    unfolding new by (simp add: generateAuthTokens_ExpiresAt)
  with u new show ?thesis
    by (intro exI [of _ userData]) simp
qed

lemma Handler_RefreshToken_traced_keeps_refresh_secret:
  assumes "Handler_RefreshToken_traced conf d pool now r = (AuthResponse msg rotated, d', pool')"
  shows "\<exists>(req :: Payload) (user :: User) old.
           Body r = Some req \<and> old \<in> set (bundles_of d (u_id user)) \<and>
           RefreshToken rotated = t_refresh_token old \<and>
           RefreshToken rotated = json_refreshToken req \<and>
           128 \<le> length pool \<and>
           AccessToken rotated = EncodeToString (take 32 pool) \<and>
           CSRFToken rotated = EncodeToString (take 32 (drop 96 pool)) \<and>
           ExpiresAt rotated = now + AccessTokenDuration conf \<and>
           bundles_of d' (u_id user) = [dbToken_of (u_id user) rotated]"
proof -
  from assms
  have "Handler_RefreshToken_with GetAuthTokensByRefreshToken_traced conf d pool now r =
          (AuthResponse msg rotated, d', pool')"
    by (simp add: Handler_RefreshToken_traced_def)
  from Handler_RefreshToken_with_success [OF this]
  obtain req :: Payload and user :: User and d1 old and owner :: User and d2 generated where
    body: "Body r = Some req" and
    get: "GetUserByUsername d (json_username req) = (Inr (Some user), d1)" and
    look: "GetAuthTokensByRefreshToken_traced d1 (json_refreshToken req) =
             (Inr (Some (old, owner)), d2)" and
    own: "t_user_id old = u_id user" and ref: "t_refresh_token old = json_refreshToken req" and
    gen: "GenerateAuthTokens conf pool now = (Inr generated, pool')" and
    rot: "rotated = generated\<lparr>RefreshToken := t_refresh_token old\<rparr>" and
    save: "SaveAuthTokens d2 (u_id user) (dbToken_of (u_id user) rotated) = (None, d')"
    by blast
  from GetUserByUsername_tables [OF get] GetAuthTokensByRefreshToken_traced_tables [OF look]
  have tabs: "auth_tokens d1 = auth_tokens d" "auth_tokens d2 = auth_tokens d" by simp_all
  obtain f d3 where e: "exec_stmt d1 = (f, d3)" by (cases "exec_stmt d1")
  with look have "find (\<lambda>(t, u). t_refresh_token t = json_refreshToken req) (joined_rows d3) =
                    Some (old, owner)"
    by (cases f) (auto simp: GetAuthTokensByRefreshToken_traced_def)
  then have "(old, owner) \<in> set (joined_rows d3)"
    by (rule find_Some_mem)
  then have "old \<in> set (auth_tokens d3)" by (rule joined_rows_token)
  with exec_stmt_eq [OF e] tabs own have mem: "old \<in> set (bundles_of d (u_id user))"
    by (simp add: bundles_of_def)
  from gen have len: "128 \<le> length pool"
    and g: "generated = \<lparr>AccessToken = EncodeToString (take 32 pool),
               RefreshToken = EncodeToString (take 64 (drop 32 pool)),
               CSRFToken = EncodeToString (take 32 (drop 96 pool)),
               ExpiresAt = now + AccessTokenDuration conf\<rparr>"
    by (simp_all add: GenerateAuthTokens_Inr)
  from SaveAuthTokens_cases [OF save]
  have stored: "bundles_of d' (u_id user) = [dbToken_of (u_id user) rotated]"
    by (auto simp: bundles_split)
  show ?thesis
    using body mem ref len stored unfolding rot g
    by (intro exI [of _ req] exI [of _ user] exI [of _ old]) simp
qed

text \<open>
  C2. In the in-memory service a rotation does not always give new secrets. When the
  randomness source fails, \<^verbatim>\<open>generateToken\<close> swallows the error, so a login issues a
  bundle whose three secrets are empty, and a rotation of that bundle with the empty
  refresh secret it was given succeeds and returns an empty access secret and an empty
  anti-forgery secret again: the very ones it replaces. The persistent service, whose
  \<^verbatim>\<open>GenerateToken\<close> returns the error, refuses to rotate without randomness.
\<close>

theorem rotation_without_entropy_repeats_secrets:
  "fst (login always sample_map [] 0 (request [] [] (body_of ''alice123'' ''password'' []))) =
     AuthResponse ''User logged in successfully''
       \<lparr>AccessToken = [], RefreshToken = [], CSRFToken = [], ExpiresAt = 15 * Minute\<rparr> \<and>
   fst (snd (login always sample_map [] 0
               (request [] [] (body_of ''alice123'' ''password'' [])))) ''alice123'' =
     Some \<lparr>HashedPassword = ''hashA'',
           Tokens = \<lparr>AccessToken = [], RefreshToken = [], CSRFToken = [],
                     ExpiresAt = 15 * Minute\<rparr>\<rparr> \<and>
   fst (refreshToken
          (fst (snd (login always sample_map [] 0
                       (request [] [] (body_of ''alice123'' ''password'' [])))))
          [] 50 (request [] [] (body_of ''alice123'' [] []))) =
     AuthResponse ''Tokens refreshed successfully''
       \<lparr>AccessToken = [], RefreshToken = [], CSRFToken = [], ExpiresAt = 50 + 15 * Minute\<rparr> \<and>
   fst (Handler_RefreshToken_traced sample_conf sample_store [] 50
          (request [] [] (body_of ''alice123'' [] ''refA''))) =
     JSONError ''Internal server error'' 500"
  by code_simp

section \<open>Issuing a bundle replaces the owner's previous one\<close>









end
